theory Spec2Isabelle
  imports Main "HOL-Library.AList"
begin

section \<open>The adaptive search component (src/filter-bug/FilterPanel.tsx)\<close>

text \<open>
  A shallow embedding of \<^verbatim>\<open>AdvancedSearchComponent\<close> and of the helpers it is built from:
  \<^verbatim>\<open>createRateLimiter\<close>, \<^verbatim>\<open>createSearchCache\<close>, the four search strategies and the
  orchestrating callbacks \<^verbatim>\<open>performSearch\<close>, \<^verbatim>\<open>performApiSearch\<close>,
  \<^verbatim>\<open>handleInputChange\<close>, \<^verbatim>\<open>handleKeyDown\<close>, \<^verbatim>\<open>clearSearch\<close> and
  \<^verbatim>\<open>handleStrategyChange\<close>.

  Conventions of the embedding:
  \<^item> \<^verbatim>\<open>Date.now()\<close> is an explicit argument \<open>now\<close> (milliseconds, an integer);
  \<^item> a mutable closure variable (\<^verbatim>\<open>requests\<close>, \<^verbatim>\<open>cache\<close>) or a React ref or state
    is a field of an explicit state that every operation returns updated;
  \<^item> a JavaScript \<^verbatim>\<open>Map\<close> is an association list with distinct keys in insertion
    order: \<^verbatim>\<open>map.set\<close> overwrites an existing key in place and appends a new one,
    \<^verbatim>\<open>map.delete\<close> removes the key, \<^verbatim>\<open>map.keys()\<close> lists the keys in that order;
  \<^item> an \<^verbatim>\<open>async\<close> function is split at its only real suspension point, the
    \<^verbatim>\<open>await fetch(...)\<close> of \<^verbatim>\<open>performApiSearch\<close>: the part before it runs when
    the search is dispatched, the part after it runs when the fetch settles;
  \<^item> strings are lists of characters; \<^verbatim>\<open>toLowerCase\<close> and \<^verbatim>\<open>trim\<close> are modelled
    on ASCII letters and ASCII white space.
\<close>

subsection \<open>Strings\<close>

definition toLowerChar :: "char \<Rightarrow> char" where
  "toLowerChar c =
     (let n = (of_char c :: nat) in if 65 \<le> n \<and> n \<le> 90 then char_of (n + 32) else c)"

definition toLowerCase :: "string \<Rightarrow> string" where
  "toLowerCase s = map toLowerChar s"

definition isWhiteSpace :: "char \<Rightarrow> bool" where
  "isWhiteSpace c = ((of_char c :: nat) \<in> set [9, 10, 11, 12, 13, 32])"

definition trim :: "string \<Rightarrow> string" where
  "trim s = rev (dropWhile isWhiteSpace (rev (dropWhile isWhiteSpace s)))"

definition startsWith :: "string \<Rightarrow> string \<Rightarrow> bool" where
  "startsWith s p = (take (length p) s = p)"

fun str_includes :: "string \<Rightarrow> string \<Rightarrow> bool" where
  "str_includes [] sub = (sub = [])"
| "str_includes (c # s) sub = (startsWith (c # s) sub \<or> str_includes s sub)"

text \<open>A string is truthy in JavaScript unless it is empty.\<close>

definition truthy :: "string \<Rightarrow> bool" where
  "truthy s = (s \<noteq> [])"

function showNat :: "nat \<Rightarrow> string" where
  "showNat n =
     (if n < 10 then [char_of (48 + n)] else showNat (n div 10) @ [char_of (48 + n mod 10)])"
  by pat_completeness auto
termination
  by (relation "measure id") auto

subsection \<open>Types of the component\<close>

record company =
  company_name :: string

record user =
  user_id :: int
  name :: string
  email :: string
  company :: company

datatype field = FId | FName | FEmail | FCompany

datatype SearchMode = Instant | Balanced | Conservative | Manual

datatype source = Cache | Api | Local | RateLimited

record CacheEntry =
  entry_data :: "user list"
  timestamp :: int

record SearchStats =
  apiCalls :: nat
  cacheHits :: nat
  localSearches :: nat

text \<open>
  \<^verbatim>\<open>SearchResult\<close>; its optional \<^verbatim>\<open>error\<close> field is called \<open>result_error\<close> here, to keep
  it apart from the \<^verbatim>\<open>error\<close> field of \<^verbatim>\<open>ApiResult\<close>.
\<close>

record SearchResult =
  data :: "user list"
  source :: source
  result_error :: "string option"

record ApiResult =
  isLoading :: bool
  error :: "string option"
  results :: "user list"
  isDropdownOpen :: bool

text \<open>The props of the component that the search logic reads.\<close>

record config =
  debounceMs :: nat
  minQueryLength :: nat
  maxResults :: nat
  rateLimit :: int
  rateLimitWindow :: int
  cacheDuration :: int
  maxCacheSize :: int
  searchFields :: "field list"

definition defaultConfig :: config where
  "defaultConfig =
     \<lparr>debounceMs = 300, minQueryLength = 2, maxResults = 50, rateLimit = 60,
      rateLimitWindow = 60000, cacheDuration = 5 * 60 * 1000, maxCacheSize = 50,
      searchFields = [FName, FEmail]\<rparr>"

subsection \<open>createRateLimiter\<close>

text \<open>
  \<^verbatim>\<open>requests.splice(i, 1)\<close> removes the element at index \<open>i\<close>. The loop of
  \<^verbatim>\<open>cleanup\<close> runs \<open>i\<close> from \<open>requests.length - 1\<close> down to \<open>0\<close>; \<open>cleanup_loop\<close> takes
  the number of indices still to visit, so that \<open>Suc i\<close> stands for the index \<open>i\<close>.
\<close>

definition splice1 :: "nat \<Rightarrow> 'a list \<Rightarrow> 'a list" where
  "splice1 i xs = take i xs @ drop (Suc i) xs"

fun cleanup_loop :: "int \<Rightarrow> nat \<Rightarrow> int list \<Rightarrow> int list" where
  "cleanup_loop cutoff 0 requests = requests"
| "cleanup_loop cutoff (Suc i) requests =
     cleanup_loop cutoff i (if requests ! i \<le> cutoff then splice1 i requests else requests)"

definition cleanup :: "int \<Rightarrow> int \<Rightarrow> int list \<Rightarrow> int list" where
  "cleanup windowMs now requests = cleanup_loop (now - windowMs) (length requests) requests"

definition isLimited :: "int \<Rightarrow> int \<Rightarrow> int \<Rightarrow> int list \<Rightarrow> bool \<times> int list" where
  "isLimited limit windowMs now requests =
     (let requests' = cleanup windowMs now requests
      in (int (length requests') \<ge> limit, requests'))"

definition record_request :: "int \<Rightarrow> int list \<Rightarrow> int list" where
  "record_request now requests = requests @ [now]"

definition reset :: "int list \<Rightarrow> int list" where
  "reset requests = []"

definition remaining :: "int \<Rightarrow> int \<Rightarrow> int \<Rightarrow> int list \<Rightarrow> int \<times> int list" where
  "remaining limit windowMs now requests =
     (let requests' = cleanup windowMs now requests
      in (max 0 (limit - int (length requests')), requests'))"

subsection \<open>createSearchCache\<close>

type_synonym cache = "(string \<times> CacheEntry) list"

definition cache_get :: "int \<Rightarrow> int \<Rightarrow> string \<Rightarrow> cache \<Rightarrow> user list option \<times> cache" where
  "cache_get duration now query c =
     (case map_of c query of
        None \<Rightarrow> (None, c)
      | Some entry \<Rightarrow>
          if now - timestamp entry > duration then (None, AList.delete query c)
          else (Some (entry_data entry), c))"

text \<open>
  \<^verbatim>\<open>if (firstKey) cache.delete(firstKey)\<close> tests the key for truthiness: it skips the
  deletion when the cache is empty (\<^verbatim>\<open>undefined\<close>) and also when the first key is the
  empty string.
\<close>

definition cache_set :: "int \<Rightarrow> int \<Rightarrow> string \<Rightarrow> user list \<Rightarrow> cache \<Rightarrow> cache" where
  "cache_set maxSize now query d c =
     (let c' = (if int (length c) \<ge> maxSize then
                  (case map fst c of
                     [] \<Rightarrow> c
                   | firstKey # _ \<Rightarrow> if truthy firstKey then AList.delete firstKey c else c)
                else c)
      in AList.update query \<lparr>entry_data = d, timestamp = now\<rparr> c')"

fun fuzzyMatch_loop :: "int \<Rightarrow> int \<Rightarrow> string \<Rightarrow> cache \<Rightarrow> user list option" where
  "fuzzyMatch_loop duration now lowerQuery [] = None"
| "fuzzyMatch_loop duration now lowerQuery ((cachedQuery, entry) # rest) =
     (if now - timestamp entry > duration then fuzzyMatch_loop duration now lowerQuery rest
      else
        (let lowerCached = toLowerCase cachedQuery
         in if startsWith lowerQuery lowerCached \<or> str_includes lowerCached lowerQuery
            then Some (entry_data entry)
            else fuzzyMatch_loop duration now lowerQuery rest))"

definition fuzzyMatch :: "int \<Rightarrow> int \<Rightarrow> string \<Rightarrow> cache \<Rightarrow> user list option" where
  "fuzzyMatch duration now query c = fuzzyMatch_loop duration now (toLowerCase query) c"

definition cache_clear :: "cache \<Rightarrow> cache" where
  "cache_clear c = []"

definition cache_size :: "cache \<Rightarrow> nat" where
  "cache_size c = length c"

subsection \<open>Remote search: the outcome of a fetch\<close>

text \<open>
  What a \<^verbatim>\<open>catch\<close> clause reads of a thrown value: whether it is an \<^verbatim>\<open>Error\<close>
  instance, its \<^verbatim>\<open>name\<close> and its \<^verbatim>\<open>message\<close>.
\<close>

record js_error =
  instanceofError :: bool
  error_name :: string
  message :: string

text \<open>
  The value with which \<^verbatim>\<open>fetch\<close> rejects once its signal is aborted: a
  \<^verbatim>\<open>DOMException\<close> named \<^verbatim>\<open>AbortError\<close>. The message text is the browser's.
\<close>

definition abortError :: js_error where
  "abortError =
     \<lparr>instanceofError = True, error_name = ''AbortError'',
      message = ''signal is aborted without reason''\<rparr>"

text \<open>
  A fetch either rejects (transport failure, abort; a body that is not JSON makes
  \<^verbatim>\<open>response.json()\<close> reject in the same way) or yields a response with its
  \<^verbatim>\<open>ok\<close> flag, its status and the users of its JSON body.
\<close>

datatype fetch_outcome =
    FetchRejected js_error
  | FetchResponse bool nat "user list"

fun fieldMatches :: "string \<Rightarrow> user \<Rightarrow> field \<Rightarrow> bool" where
  "fieldMatches lowerQuery u FId = False"
| "fieldMatches lowerQuery u FName = str_includes (toLowerCase (name u)) lowerQuery"
| "fieldMatches lowerQuery u FEmail = str_includes (toLowerCase (email u)) lowerQuery"
| "fieldMatches lowerQuery u FCompany =
     list_ex (\<lambda>v. str_includes (toLowerCase v) lowerQuery) [company_name (company u)]"

definition userMatches :: "field list \<Rightarrow> string \<Rightarrow> user \<Rightarrow> bool" where
  "userMatches flds lowerQuery u = list_ex (fieldMatches lowerQuery u) flds"

text \<open>
  The part of \<^verbatim>\<open>performApiSearch\<close> after \<^verbatim>\<open>await fetch(...)\<close>: it throws what the fetch
  rejected with, throws \<^verbatim>\<open>Error("HTTP " + status)\<close> on a response that is not ok, and
  otherwise returns the matching users, at most \<^verbatim>\<open>maxResults\<close> of them.
\<close>

definition performApiSearch_finish :: "config \<Rightarrow> string \<Rightarrow> fetch_outcome \<Rightarrow> js_error + user list" where
  "performApiSearch_finish cfg searchQuery outcome =
     (case outcome of
        FetchRejected e \<Rightarrow> Inl e
      | FetchResponse ok status body \<Rightarrow>
          if \<not> ok then
            Inl \<lparr>instanceofError = True, error_name = ''Error'',
                 message = ''HTTP '' @ showNat status\<rparr>
          else
            Inr (take (maxResults cfg)
                   (filter (userMatches (searchFields cfg) (toLowerCase searchQuery)) body)))"

subsection \<open>Local history search\<close>

type_synonym history = "(string \<times> user list) list"

text \<open>
  \<^verbatim>\<open>resultsSet.add(user)\<close> on a \<^verbatim>\<open>Set\<close> kept in insertion order. Two equal user
  values of the model stand for one object.
\<close>

definition setAdd :: "'a \<Rightarrow> 'a list \<Rightarrow> 'a list" where
  "setAdd x xs = (if x \<in> set xs then xs else xs @ [x])"

definition performLocalSearch :: "config \<Rightarrow> history \<Rightarrow> string \<Rightarrow> user list" where
  "performLocalSearch cfg recentSearches searchQuery =
     (let lowerQuery = toLowerCase searchQuery;
          resultsSet =
            fold (\<lambda>users acc.
                    fold (\<lambda>u acc'. if userMatches (searchFields cfg) lowerQuery u
                                    then setAdd u acc' else acc')
                         users acc)
                 (map snd recentSearches) []
      in take (maxResults cfg) resultsSet)"

subsection \<open>Search strategies\<close>

text \<open>
  A strategy's \<^verbatim>\<open>execute\<close> either returns its result without suspending, or suspends in
  \<^verbatim>\<open>await apiSearch(query)\<close> inside its \<^verbatim>\<open>tryApiSearch\<close>: the remote search function
  has then been invoked, and the named continuation runs when its promise settles.
\<close>

datatype continuation = InstantTry | BalancedTry | ConservativeTry

datatype strategy_step =
    Done SearchResult
  | AwaitApi continuation string

definition invokesRemote :: "strategy_step \<Rightarrow> bool" where
  "invokesRemote step = (case step of Done r \<Rightarrow> False | AwaitApi k q \<Rightarrow> True)"

text \<open>
  \<^verbatim>\<open>tryApiSearch\<close> (the three strategies hold three identical copies of it), up to the
  \<^verbatim>\<open>await\<close> and from the \<^verbatim>\<open>await\<close> on.
\<close>

definition tryApiSearch_start ::
  "continuation \<Rightarrow> config \<Rightarrow> int \<Rightarrow> string \<Rightarrow> int list \<Rightarrow> strategy_step \<times> int list" where
  "tryApiSearch_start k cfg now q rl =
     (case isLimited (rateLimit cfg) (rateLimitWindow cfg) now rl of
        (limited, rl') \<Rightarrow>
          if limited then
            (Done \<lparr>data = [], source = RateLimited,
                   result_error = Some ''Rate limit exceeded. Please slow down.''\<rparr>, rl')
          else (AwaitApi k q, rl'))"

definition tryApiSearch_resume ::
  "config \<Rightarrow> int \<Rightarrow> string \<Rightarrow> js_error + user list \<Rightarrow> cache \<Rightarrow> int list
     \<Rightarrow> SearchResult \<times> cache \<times> int list" where
  "tryApiSearch_resume cfg now q settled c rl =
     (case settled of
        Inr d \<Rightarrow>
          (\<lparr>data = d, source = Api, result_error = None\<rparr>,
           cache_set (maxCacheSize cfg) now q d c, record_request now rl)
      | Inl e \<Rightarrow>
          (\<lparr>data = [], source = Api,
            result_error = Some (if instanceofError e then message e else ''Search failed'')\<rparr>,
           c, rl))"

definition truthyError :: "string option \<Rightarrow> bool" where
  "truthyError e = (case e of None \<Rightarrow> False | Some m \<Rightarrow> truthy m)"

subsubsection \<open>Instant\<close>

definition instant_start ::
  "config \<Rightarrow> int \<Rightarrow> string \<Rightarrow> cache \<Rightarrow> int list \<Rightarrow> strategy_step \<times> cache \<times> int list" where
  "instant_start cfg now q c rl =
     (case tryApiSearch_start InstantTry cfg now q rl of (step, rl') \<Rightarrow> (step, c, rl'))"

subsubsection \<open>Balanced\<close>

text \<open>The code of \<^verbatim>\<open>execute\<close> that follows \<^verbatim>\<open>await tryApiSearch(query, apiSearch)\<close>.\<close>

definition balanced_fallback :: "string \<Rightarrow> (string \<Rightarrow> user list) \<Rightarrow> SearchResult \<Rightarrow> SearchResult" where
  "balanced_fallback q localSearch apiRes =
     (if truthyError (result_error apiRes) \<and> data apiRes = [] then
        (let localData = localSearch q
         in if localData \<noteq> [] then
              \<lparr>data = localData, source = Local,
               result_error = Some ''Showing local results (API unavailable)''\<rparr>
            else apiRes)
      else apiRes)"

definition balanced_start ::
  "config \<Rightarrow> int \<Rightarrow> string \<Rightarrow> (string \<Rightarrow> user list) \<Rightarrow> cache \<Rightarrow> int list
     \<Rightarrow> strategy_step \<times> cache \<times> int list" where
  "balanced_start cfg now q localSearch c rl =
     (case cache_get (cacheDuration cfg) now q c of
        (Some cached, c') \<Rightarrow> (Done \<lparr>data = cached, source = Cache, result_error = None\<rparr>, c', rl)
      | (None, c') \<Rightarrow>
          (case fuzzyMatch (cacheDuration cfg) now q c' of
             Some fuzzy \<Rightarrow> (Done \<lparr>data = fuzzy, source = Cache, result_error = None\<rparr>, c', rl)
           | None \<Rightarrow>
               (case tryApiSearch_start BalancedTry cfg now q rl of
                  (Done apiRes, rl') \<Rightarrow> (Done (balanced_fallback q localSearch apiRes), c', rl')
                | (AwaitApi k q', rl') \<Rightarrow> (AwaitApi k q', c', rl'))))"

definition balanced_resume ::
  "config \<Rightarrow> int \<Rightarrow> string \<Rightarrow> (string \<Rightarrow> user list) \<Rightarrow> js_error + user list \<Rightarrow> cache \<Rightarrow> int list
     \<Rightarrow> SearchResult \<times> cache \<times> int list" where
  "balanced_resume cfg now q localSearch settled c rl =
     (case tryApiSearch_resume cfg now q settled c rl of
        (apiRes, c', rl') \<Rightarrow> (balanced_fallback q localSearch apiRes, c', rl'))"

subsubsection \<open>Conservative\<close>

definition conservative_start ::
  "config \<Rightarrow> int \<Rightarrow> string \<Rightarrow> (string \<Rightarrow> user list) \<Rightarrow> cache \<Rightarrow> int list
     \<Rightarrow> strategy_step \<times> cache \<times> int list" where
  "conservative_start cfg now q localSearch c rl =
     (if length q \<le> 3 then
        (let localData = localSearch q
         in (Done \<lparr>data = localData, source = Local,
                   result_error = (if localData = [] then Some ''Type more characters for API search''
                                   else None)\<rparr>, c, rl))
      else
        (case cache_get (cacheDuration cfg) now q c of
           (Some cached, c') \<Rightarrow> (Done \<lparr>data = cached, source = Cache, result_error = None\<rparr>, c', rl)
         | (None, c') \<Rightarrow>
             (case fuzzyMatch (cacheDuration cfg) now q c' of
                Some fuzzy \<Rightarrow> (Done \<lparr>data = fuzzy, source = Cache, result_error = None\<rparr>, c', rl)
              | None \<Rightarrow>
                  (case isLimited (rateLimit cfg) (rateLimitWindow cfg) now rl of
                     (limited, rl') \<Rightarrow>
                       if limited then
                         (Done \<lparr>data = localSearch q, source = RateLimited,
                                result_error = Some ''Rate limited. Showing local results.''\<rparr>,
                          c', rl')
                       else
                         (case tryApiSearch_start ConservativeTry cfg now q rl' of
                            (step, rl'') \<Rightarrow> (step, c', rl''))))))"

subsubsection \<open>Manual\<close>

definition manual_start ::
  "config \<Rightarrow> int \<Rightarrow> string \<Rightarrow> (string \<Rightarrow> user list) \<Rightarrow> cache \<Rightarrow> int list
     \<Rightarrow> strategy_step \<times> cache \<times> int list" where
  "manual_start cfg now q localSearch c rl =
     (case cache_get (cacheDuration cfg) now q c of
        (Some cached, c') \<Rightarrow> (Done \<lparr>data = cached, source = Cache, result_error = None\<rparr>, c', rl)
      | (None, c') \<Rightarrow>
          (let localData = localSearch q
           in (Done \<lparr>data = localData, source = Local,
                     result_error = (if localData = []
                                     then Some ''No local results. Press Enter for API search.''
                                     else None)\<rparr>, c', rl)))"

subsubsection \<open>The table \<^verbatim>\<open>strategies[currentMode]\<close>\<close>

fun execute_start ::
  "SearchMode \<Rightarrow> config \<Rightarrow> int \<Rightarrow> string \<Rightarrow> (string \<Rightarrow> user list) \<Rightarrow> cache \<Rightarrow> int list
     \<Rightarrow> strategy_step \<times> cache \<times> int list" where
  "execute_start Instant cfg now q localSearch c rl = instant_start cfg now q c rl"
| "execute_start Balanced cfg now q localSearch c rl = balanced_start cfg now q localSearch c rl"
| "execute_start Conservative cfg now q localSearch c rl =
     conservative_start cfg now q localSearch c rl"
| "execute_start Manual cfg now q localSearch c rl = manual_start cfg now q localSearch c rl"

fun execute_resume ::
  "continuation \<Rightarrow> config \<Rightarrow> int \<Rightarrow> string \<Rightarrow> (string \<Rightarrow> user list) \<Rightarrow> js_error + user list
     \<Rightarrow> cache \<Rightarrow> int list \<Rightarrow> SearchResult \<times> cache \<times> int list" where
  "execute_resume InstantTry cfg now q localSearch settled c rl =
     tryApiSearch_resume cfg now q settled c rl"
| "execute_resume BalancedTry cfg now q localSearch settled c rl =
     balanced_resume cfg now q localSearch settled c rl"
| "execute_resume ConservativeTry cfg now q localSearch settled c rl =
     tryApiSearch_resume cfg now q settled c rl"

subsection \<open>The component's state\<close>

text \<open>
  A fetch that has been issued and has not settled yet, with what waits for it: either a
  \<^verbatim>\<open>performSearch\<close> suspended in \<^verbatim>\<open>await strategy.execute(...)\<close> (the strategy's
  continuation, the trimmed query and the \<^verbatim>\<open>currentMode\<close> it was called with), or the
  promise chain of \<^verbatim>\<open>handleKeyDown\<close> (with its \<^verbatim>\<open>query.trim()\<close>). \<open>aborted\<close> records
  that \<^verbatim>\<open>abort()\<close> was called on the fetch's controller.
\<close>

datatype waiter =
    SearchWaiter continuation string SearchMode
  | SubmitWaiter string

record pending_fetch =
  fetch_id :: nat
  fetch_query :: string
  waiter :: waiter
  aborted :: bool

text \<open>
  The closure variables, React state and refs of one mounted component.
  \<open>rateLimiter\<close> is the \<^verbatim>\<open>requests\<close> array of the rate limiter; \<open>abortControllerRef\<close>
  holds the identifier of the fetch that the current controller belongs to;
  \<open>debounceTimer\<close> holds the arguments of the scheduled \<^verbatim>\<open>performSearch\<close> call.
\<close>

record state =
  cache :: cache
  rateLimiter :: "int list"
  recentSearchesRef :: history
  searchStats :: SearchStats
  apiResult :: ApiResult
  query :: string
  searchMode :: SearchMode
  currentStrategyRef :: SearchMode
  abortControllerRef :: "nat option"
  pending :: "pending_fetch list"
  nextId :: nat
  debounceTimer :: "(string \<times> SearchMode) option"

definition initialState :: "SearchMode \<Rightarrow> state" where
  "initialState defaultStrategy =
     \<lparr>cache = [], rateLimiter = [], recentSearchesRef = [],
      searchStats = \<lparr>apiCalls = 0, cacheHits = 0, localSearches = 0\<rparr>,
      apiResult = \<lparr>isLoading = False, error = None, results = [], isDropdownOpen = False\<rparr>,
      query = [], searchMode = defaultStrategy, currentStrategyRef = defaultStrategy,
      abortControllerRef = None, pending = [], nextId = 0, debounceTimer = None\<rparr>"

subsection \<open>performApiSearch, up to its await\<close>

text \<open>\<^verbatim>\<open>abortControllerRef.current?.abort()\<close>\<close>

definition abortCurrent :: "state \<Rightarrow> state" where
  "abortCurrent s =
     (case abortControllerRef s of
        None \<Rightarrow> s
      | Some i \<Rightarrow>
          s\<lparr>pending := map (\<lambda>p. if fetch_id p = i then p\<lparr>aborted := True\<rparr> else p) (pending s)\<rparr>)"

definition performApiSearch_start :: "waiter \<Rightarrow> string \<Rightarrow> state \<Rightarrow> state" where
  "performApiSearch_start w searchQuery s =
     (let s1 = abortCurrent s; i = nextId s1
      in s1\<lparr>abortControllerRef := Some i, nextId := Suc i,
            pending := pending s1 @
              [\<lparr>fetch_id = i, fetch_query = searchQuery, waiter = w, aborted = False\<rparr>]\<rparr>)"

subsection \<open>updateStats and the write to the local history\<close>

fun updateStats :: "source \<Rightarrow> SearchStats \<Rightarrow> SearchStats" where
  "updateStats Api prev = prev\<lparr>apiCalls := apiCalls prev + 1\<rparr>"
| "updateStats Cache prev = prev\<lparr>cacheHits := cacheHits prev + 1\<rparr>"
| "updateStats Local prev = prev\<lparr>localSearches := localSearches prev + 1\<rparr>"
| "updateStats RateLimited prev = prev"

text \<open>
  \<^verbatim>\<open>recentSearchesRef.current.set(trimmedQuery, result.data)\<close> followed by the eviction of
  the first key once there are more than 20 entries.
\<close>

definition rememberSearch :: "string \<Rightarrow> user list \<Rightarrow> history \<Rightarrow> history" where
  "rememberSearch trimmedQuery d h =
     (let h' = AList.update trimmedQuery d h
      in if length h' > 20 then
           (case map fst h' of
              [] \<Rightarrow> h'
            | firstKey # _ \<Rightarrow> if truthy firstKey then AList.delete firstKey h' else h')
         else h')"

subsection \<open>performSearch\<close>

text \<open>The \<^verbatim>\<open>finally\<close> block of \<^verbatim>\<open>performSearch\<close>.\<close>

definition finishLoading :: "state \<Rightarrow> state" where
  "finishLoading s = s\<lparr>apiResult := (apiResult s)\<lparr>isLoading := False\<rparr>\<rparr>"

text \<open>
  The code of \<^verbatim>\<open>performSearch\<close> after \<^verbatim>\<open>await strategy.execute(...)\<close>: a result that
  arrives under another strategy is dropped; otherwise it is shown, counted and, when
  its data is not empty, written to the local history. The \<^verbatim>\<open>catch\<close> clause of
  \<^verbatim>\<open>performSearch\<close> has no counterpart here: every strategy catches what the remote
  search throws, so \<^verbatim>\<open>execute\<close> never rejects.
\<close>

definition applyResult :: "string \<Rightarrow> SearchMode \<Rightarrow> SearchResult \<Rightarrow> state \<Rightarrow> state" where
  "applyResult trimmedQuery currentMode result s =
     finishLoading
       (if currentStrategyRef s \<noteq> currentMode then s
        else
          s\<lparr>apiResult := (apiResult s)
               \<lparr>error := (if truthyError (result_error result) then result_error result else None),
                results := data result,
                isDropdownOpen := True\<rparr>,
            searchStats := updateStats (source result) (searchStats s),
            recentSearchesRef :=
              (if data result \<noteq> [] then rememberSearch trimmedQuery (data result) (recentSearchesRef s)
               else recentSearchesRef s)\<rparr>)"

definition performSearch :: "config \<Rightarrow> int \<Rightarrow> string \<Rightarrow> SearchMode \<Rightarrow> state \<Rightarrow> state" where
  "performSearch cfg now searchQuery currentMode s =
     (let trimmedQuery = trim searchQuery
      in if \<not> truthy trimmedQuery \<or> length trimmedQuery < minQueryLength cfg then
           s\<lparr>apiResult := (apiResult s)\<lparr>error := None, results := []\<rparr>\<rparr>
         else
           (let s1 = s\<lparr>apiResult := (apiResult s)\<lparr>error := None, isLoading := True\<rparr>\<rparr>
            in case execute_start currentMode cfg now trimmedQuery
                      (performLocalSearch cfg (recentSearchesRef s1)) (cache s1) (rateLimiter s1) of
                 (Done result, c', rl') \<Rightarrow>
                   applyResult trimmedQuery currentMode result (s1\<lparr>cache := c', rateLimiter := rl'\<rparr>)
               | (AwaitApi k q, c', rl') \<Rightarrow>
                   performApiSearch_start (SearchWaiter k trimmedQuery currentMode) q
                     (s1\<lparr>cache := c', rateLimiter := rl'\<rparr>)))"

subsection \<open>handleInputChange and the debounced call\<close>

definition handleInputChange :: "config \<Rightarrow> int \<Rightarrow> string \<Rightarrow> state \<Rightarrow> state" where
  "handleInputChange cfg now newQuery s =
     (let s1 = s\<lparr>query := newQuery, apiResult := (apiResult s)\<lparr>error := None\<rparr>\<rparr>;
          trimmedQuery = trim newQuery
      in if \<not> truthy trimmedQuery then
           s1\<lparr>apiResult := (apiResult s1)\<lparr>results := [], isDropdownOpen := False\<rparr>\<rparr>
         else if searchMode s1 = Manual then
           (if length trimmedQuery \<ge> minQueryLength cfg
            then performSearch cfg now trimmedQuery (searchMode s1) s1
            else s1\<lparr>apiResult := (apiResult s1)\<lparr>results := []\<rparr>\<rparr>)
         else
           s1\<lparr>apiResult := (apiResult s1)\<lparr>isLoading := True\<rparr>,
              debounceTimer := Some (newQuery, searchMode s1)\<rparr>)"

text \<open>The timer of \<^verbatim>\<open>useDebounce\<close> fires, \<^verbatim>\<open>debounceMs\<close> after the last keystroke.\<close>

definition debounceFires :: "config \<Rightarrow> int \<Rightarrow> state \<Rightarrow> state" where
  "debounceFires cfg now s =
     (case debounceTimer s of
        None \<Rightarrow> s
      | Some (q, m) \<Rightarrow> performSearch cfg now q m (s\<lparr>debounceTimer := None\<rparr>))"

subsection \<open>handleKeyDown, handleSelect, clearSearch, handleStrategyChange\<close>

datatype key = Escape | Enter | OtherKey

text \<open>
  \<^verbatim>\<open>handleSelect\<close> sets the query; its \<^verbatim>\<open>setApiResult\<close> only adds the properties
  \<^verbatim>\<open>setIsDropdownOpen\<close> and \<^verbatim>\<open>setResults\<close>, which nothing reads.
\<close>

definition handleSelect :: "user \<Rightarrow> state \<Rightarrow> state" where
  "handleSelect u s = s\<lparr>query := name u\<rparr>"

definition handleKeyDown :: "config \<Rightarrow> key \<Rightarrow> state \<Rightarrow> state" where
  "handleKeyDown cfg k s =
     (case k of
        Escape \<Rightarrow> s
      | OtherKey \<Rightarrow> s
      | Enter \<Rightarrow>
          if searchMode s = Manual \<and> length (trim (query s)) \<ge> minQueryLength cfg then
            performApiSearch_start (SubmitWaiter (trim (query s))) (trim (query s))
              (s\<lparr>apiResult := (apiResult s)\<lparr>isLoading := False\<rparr>\<rparr>)
          else
            (case results (apiResult s) of
               [] \<Rightarrow> s
             | u # _ \<Rightarrow> handleSelect u s))"

text \<open>The \<^verbatim>\<open>then\<close>, \<^verbatim>\<open>catch\<close> and \<^verbatim>\<open>finally\<close> handlers of \<^verbatim>\<open>handleKeyDown\<close>.\<close>

definition submitSettled :: "config \<Rightarrow> int \<Rightarrow> string \<Rightarrow> js_error + user list \<Rightarrow> state \<Rightarrow> state" where
  "submitSettled cfg now q settled s =
     finishLoading
       (case settled of
          Inr d \<Rightarrow>
            s\<lparr>rateLimiter := record_request now (rateLimiter s),
              cache := cache_set (maxCacheSize cfg) now q d (cache s),
              apiResult := (apiResult s)\<lparr>results := d, error := None, isDropdownOpen := True\<rparr>,
              searchStats := updateStats Api (searchStats s)\<rparr>
        | Inl e \<Rightarrow>
            if error_name e \<noteq> ''AbortError'' then
              s\<lparr>apiResult := (apiResult s)\<lparr>error := Some ''Search failed. Please try again.''\<rparr>\<rparr>
            else s)"

definition clearSearch :: "state \<Rightarrow> state" where
  "clearSearch s =
     abortCurrent
       (s\<lparr>query := [],
          apiResult := (apiResult s)
            \<lparr>results := [], isLoading := False, error := None, isDropdownOpen := False\<rparr>\<rparr>)"

text \<open>
  \<^verbatim>\<open>handleStrategyChange\<close>, together with the effect that copies the new
  \<^verbatim>\<open>searchMode\<close> into \<^verbatim>\<open>currentStrategyRef\<close> after the render it causes.
\<close>

definition handleStrategyChange :: "SearchMode \<Rightarrow> state \<Rightarrow> state" where
  "handleStrategyChange m s =
     (let s1 = abortCurrent s
      in s1\<lparr>searchMode := m, currentStrategyRef := m,
            apiResult := (apiResult s1)\<lparr>isLoading := False\<rparr>\<rparr>)"

subsection \<open>A fetch settles\<close>

text \<open>
  The promise of the fetch with identifier \<open>i\<close> settles with \<open>outcome\<close>; a fetch whose
  controller was aborted rejects with the abort error whatever the network did. The rest
  of \<^verbatim>\<open>performApiSearch\<close> runs, then whatever awaited it.
\<close>

definition settledValue :: "config \<Rightarrow> pending_fetch \<Rightarrow> fetch_outcome \<Rightarrow> js_error + user list" where
  "settledValue cfg p outcome =
     performApiSearch_finish cfg (fetch_query p)
       (if aborted p then FetchRejected abortError else outcome)"

definition fetchSettles :: "config \<Rightarrow> int \<Rightarrow> nat \<Rightarrow> fetch_outcome \<Rightarrow> state \<Rightarrow> state" where
  "fetchSettles cfg now i outcome s =
     (case find (\<lambda>p. fetch_id p = i) (pending s) of
        None \<Rightarrow> s
      | Some p \<Rightarrow>
          (let s1 = s\<lparr>pending := filter (\<lambda>p'. fetch_id p' \<noteq> i) (pending s)\<rparr>;
               settled = settledValue cfg p outcome
           in case waiter p of
                SearchWaiter k trimmedQuery currentMode \<Rightarrow>
                  (case execute_resume k cfg now trimmedQuery
                          (performLocalSearch cfg (recentSearchesRef s1)) settled
                          (cache s1) (rateLimiter s1) of
                     (result, c', rl') \<Rightarrow>
                       applyResult trimmedQuery currentMode result
                         (s1\<lparr>cache := c', rateLimiter := rl'\<rparr>))
              | SubmitWaiter q \<Rightarrow> submitSettled cfg now q settled s1))"

subsection \<open>Example data\<close>

text \<open>
  A user; a configuration that allows one remote call per window; a configuration
  without a minimum query length and with room for one cache entry; a transport
  failure; and the state of a freshly mounted component after one search for \<open>q\<close>
  under strategy \<open>m\<close> was dispatched at time 0 and answered by the API at time 5 with
  that user.
\<close>

definition john :: user where
  "john = \<lparr>user_id = 1, name = ''John'', email = ''john@example.com'',
           company = \<lparr>company_name = ''Acme''\<rparr>\<rparr>"

definition tightConfig :: config where
  "tightConfig = defaultConfig\<lparr>rateLimit := 1\<rparr>"

definition openConfig :: config where
  "openConfig = defaultConfig\<lparr>minQueryLength := 0, maxCacheSize := 1\<rparr>"

definition failedToFetch :: js_error where
  "failedToFetch =
     \<lparr>instanceofError = True, error_name = ''TypeError'', message = ''Failed to fetch''\<rparr>"

definition answered :: "config \<Rightarrow> SearchMode \<Rightarrow> string \<Rightarrow> state" where
  "answered cfg m q =
     fetchSettles cfg 5 0 (FetchResponse True 200 [john])
       (performSearch cfg 0 q m (initialState m))"

text \<open>
  Balanced mode: a search for \<open>john\<close> is dispatched at time 0 and, before its fetch
  settles, a search for \<open>johnny\<close> at time 100.
\<close>

definition twoSearches :: state where
  "twoSearches =
     performSearch defaultConfig 100 ''johnny'' Balanced
       (performSearch defaultConfig 0 ''john'' Balanced (initialState Balanced))"

text \<open>
  Instant mode: a search for \<open>john\<close> is dispatched at time 0 and the user clears the
  input before its fetch settles.
\<close>

definition clearedSearch :: state where
  "clearedSearch =
     clearSearch (performSearch defaultConfig 0 ''john'' Instant (initialState Instant))"

text \<open>
  Manual mode: the user types \<open>john\<close>, presses Enter, and clears the input before the
  fetch settles.
\<close>

definition clearedSubmit :: state where
  "clearedSubmit =
     clearSearch
       (handleKeyDown defaultConfig Enter
          (handleInputChange defaultConfig 0 ''john'' (initialState Manual)))"

text \<open>
  Manual mode without a minimum query length and with \<^verbatim>\<open>maxCacheSize = 1\<close>: Enter on
  the empty input, answered at time 10; then \<open>john\<close> is typed and submitted, answered at
  time 20.
\<close>

definition submittedEmpty :: state where
  "submittedEmpty =
     fetchSettles openConfig 10 0 (FetchResponse True 200 [john])
       (handleKeyDown openConfig Enter (initialState Manual))"

definition submittedJohn :: state where
  "submittedJohn =
     fetchSettles openConfig 20 1 (FetchResponse True 200 [john])
       (handleKeyDown openConfig Enter (handleInputChange openConfig 15 ''john'' submittedEmpty))"

text \<open>
  Balanced mode, after a search for \<open>jo\<close> was answered: a search for \<open>mary\<close> goes
  remote at time 10 and, before its fetch settles, a search for \<open>john\<close> at time 20 is
  answered from the cache (the cached key \<open>jo\<close> is a prefix of it).
\<close>

definition mary :: user where
  "mary = \<lparr>user_id = 2, name = ''Mary'', email = ''mary@example.com'',
           company = \<lparr>company_name = ''Initech''\<rparr>\<rparr>"

definition cacheHitWhileWaiting :: state where
  "cacheHitWhileWaiting =
     performSearch defaultConfig 20 ''john'' Balanced
       (performSearch defaultConfig 10 ''mary'' Balanced (answered defaultConfig Balanced ''jo''))"

subsection \<open>Reachable states\<close>

text \<open>
  The states a mounted component can be in: the initial one, and those that the
  handlers, the debounce timer and the settling of a fetch lead to. \<open>stateOk\<close> collects
  what holds in all of them: the keys of the cache are distinct, the local history has
  at most 20 entries and no empty key, and a suspended \<^verbatim>\<open>performSearch\<close> waits with a
  trimmed query that is not empty.
\<close>

definition waiterOk :: "waiter \<Rightarrow> bool" where
  "waiterOk w = (case w of SearchWaiter k q m \<Rightarrow> q \<noteq> [] | SubmitWaiter q \<Rightarrow> True)"

definition stateOk :: "state \<Rightarrow> bool" where
  "stateOk s =
     (distinct (map fst (cache s))
      \<and> length (recentSearchesRef s) \<le> 20
      \<and> [] \<notin> fst ` set (recentSearchesRef s)
      \<and> list_all (\<lambda>p. waiterOk (waiter p)) (pending s))"

inductive reachable :: "config \<Rightarrow> state \<Rightarrow> bool" for cfg :: config where
  mounted: "reachable cfg (initialState defaultStrategy)"
| typed: "reachable cfg s \<Longrightarrow> reachable cfg (handleInputChange cfg now newQuery s)"
| timer: "reachable cfg s \<Longrightarrow> reachable cfg (debounceFires cfg now s)"
| searched: "reachable cfg s \<Longrightarrow> reachable cfg (performSearch cfg now searchQuery currentMode s)"
| key: "reachable cfg s \<Longrightarrow> reachable cfg (handleKeyDown cfg k s)"
| cleared: "reachable cfg s \<Longrightarrow> reachable cfg (clearSearch s)"
| switched: "reachable cfg s \<Longrightarrow> reachable cfg (handleStrategyChange m s)"
| settled: "reachable cfg s \<Longrightarrow> reachable cfg (fetchSettles cfg now i outcome s)"

section \<open>Properties\<close>

subsection \<open>Rate limiter\<close>

lemma cleanup_loop_filter:
  "n \<le> length requests \<Longrightarrow>
   cleanup_loop cutoff n requests = filter (\<lambda>t. cutoff < t) (take n requests) @ drop n requests"
proof (induction n arbitrary: requests)
  case 0
  then show ?case by simp
next
  case (Suc n)
  have n_lt: "n < length requests" using Suc.prems by simp
  have tk: "take (Suc n) requests = take n requests @ [requests ! n]"
    by (simp add: take_Suc_conv_app_nth n_lt)
  show ?case
  proof (cases "requests ! n \<le> cutoff")
    case True
    have len: "n \<le> length (splice1 n requests)"
      using n_lt by (simp add: splice1_def)
    have "cleanup_loop cutoff (Suc n) requests = cleanup_loop cutoff n (splice1 n requests)"
      using True by simp
    also have "\<dots> = filter (\<lambda>t. cutoff < t) (take n (splice1 n requests)) @ drop n (splice1 n requests)"
      by (rule Suc.IH [OF len])
    also have "take n (splice1 n requests) = take n requests"
      using n_lt by (simp add: splice1_def)
    also have "drop n (splice1 n requests) = drop (Suc n) requests"
      using n_lt by (simp add: splice1_def)
    finally show ?thesis using True by (simp add: tk)
  next
    case False
    have "cleanup_loop cutoff (Suc n) requests = cleanup_loop cutoff n requests"
      using False by simp
    also have "\<dots> = filter (\<lambda>t. cutoff < t) (take n requests) @ drop n requests"
      using n_lt by (intro Suc.IH) simp
    also have "drop n requests = requests ! n # drop (Suc n) requests"
      using n_lt by (simp add: Cons_nth_drop_Suc)
    finally show ?thesis using False by (simp add: tk)
  qed
qed

lemma cleanup_filter:
  "cleanup windowMs now requests = filter (\<lambda>t. now - windowMs < t) requests"
  by (simp add: cleanup_def cleanup_loop_filter)

text \<open>
  C7. With limit 3 and a window of 1000 ms, three calls of \<^verbatim>\<open>record()\<close> at time 0 make
  \<^verbatim>\<open>isLimited()\<close> true at time 500 and false at time 1500. In general
  \<^verbatim>\<open>isLimited()\<close> first purges the timestamps outside the window (it keeps exactly those
  later than \<open>now - windowMs\<close>) and then answers whether the retained count has reached the
  limit.
\<close>

theorem isLimited_sliding_window:
  "fst (isLimited 3 1000 500 (record_request 0 (record_request 0 (record_request 0 []))))
   \<and> \<not> fst (isLimited 3 1000 1500 (record_request 0 (record_request 0 (record_request 0 []))))
   \<and> snd (isLimited limit windowMs now requests) = filter (\<lambda>t. now - windowMs < t) requests
   \<and> fst (isLimited limit windowMs now requests)
       = (limit \<le> int (length (filter (\<lambda>t. now - windowMs < t) requests)))"
  by (simp add: isLimited_def cleanup_filter record_request_def Let_def)

theorem isLimited_sliding_window_witness:
  "snd (isLimited 2 1000 1500 [0, 600, 1400]) = [600, 1400]
   \<and> fst (isLimited 2 1000 1500 [0, 600, 1400])"
  using isLimited_sliding_window [of 2 1000 1500 "[0, 600, 1400]"] by simp

subsection \<open>Cache\<close>

lemma delete_absent: "q \<notin> fst ` set c \<Longrightarrow> AList.delete q c = c"
  by (induction c) auto

lemma length_delete_distinct:
  "distinct (map fst c) \<Longrightarrow> map_of c q = Some e \<Longrightarrow> Suc (length (AList.delete q c)) = length c"
proof (induction c)
  case Nil
  then show ?case by simp
next
  case (Cons p c)
  show ?case
  proof (cases "fst p = q")
    case True
    have "q \<notin> fst ` set c" using Cons.prems(1) True by auto
    then have "AList.delete q c = c" by (rule delete_absent)
    then show ?thesis using True by simp
  next
    case False
    then have "map_of c q = Some e" using Cons.prems(2) by (cases p) (auto split: if_splits)
    then have "Suc (length (AList.delete q c)) = length c"
      using Cons.IH Cons.prems(1) by simp
    then show ?thesis using False by simp
  qed
qed

text \<open>
  C5, as amended. For an entry stored under \<open>q\<close> (the keys of a \<^verbatim>\<open>Map\<close> are distinct):
  once \<open>now > timestamp + cacheDuration\<close>, \<^verbatim>\<open>get(q)\<close> returns absent, a second
  \<^verbatim>\<open>get(q)\<close> finds nothing, and the size has dropped by one; up to and including
  \<open>now = timestamp + cacheDuration\<close> it returns the entry's data and leaves the cache as
  it is.
\<close>

theorem cache_get_ttl:
  assumes "map_of c q = Some entry" and "distinct (map fst c)"
  shows "(now > timestamp entry + duration \<longrightarrow>
            fst (cache_get duration now q c) = None
          \<and> fst (cache_get duration now q (snd (cache_get duration now q c))) = None
          \<and> Suc (cache_size (snd (cache_get duration now q c))) = cache_size c)
       \<and> (now \<le> timestamp entry + duration \<longrightarrow>
            cache_get duration now q c = (Some (entry_data entry), c))"
proof (intro conjI impI)
  assume expired: "timestamp entry + duration < now"
  then have g: "cache_get duration now q c = (None, AList.delete q c)"
    using assms(1) by (simp add: cache_get_def)
  have absent: "map_of (AList.delete q c) q = None"
    by (simp add: AList.delete_conv')
  show "fst (cache_get duration now q c) = None" by (simp add: g)
  show "fst (cache_get duration now q (snd (cache_get duration now q c))) = None"
    by (simp add: g) (simp add: cache_get_def absent)
  show "Suc (cache_size (snd (cache_get duration now q c))) = cache_size c"
    using length_delete_distinct [OF assms(2) assms(1)] by (simp add: g cache_size_def)
next
  assume "now \<le> timestamp entry + duration"
  then show "cache_get duration now q c = (Some (entry_data entry), c)"
    using assms(1) by (simp add: cache_get_def)
qed

theorem cache_get_ttl_witness:
  "fst (cache_get 1000 1001 ''jo'' [(''jo'', \<lparr>entry_data = [john], timestamp = 0\<rparr>)]) = None
   \<and> cache_size (snd (cache_get 1000 1001 ''jo'' [(''jo'', \<lparr>entry_data = [john], timestamp = 0\<rparr>)])) = 0
   \<and> cache_get 1000 999 ''jo'' [(''jo'', \<lparr>entry_data = [john], timestamp = 0\<rparr>)]
        = (Some [john], [(''jo'', \<lparr>entry_data = [john], timestamp = 0\<rparr>)])"
proof -
  have m: "map_of [(''jo'', \<lparr>entry_data = [john], timestamp = 0\<rparr>)] ''jo''
             = Some \<lparr>entry_data = [john], timestamp = 0\<rparr>" by simp
  have d: "distinct (map fst [(''jo'', \<lparr>entry_data = [john], timestamp = (0::int)\<rparr>)])"
    by simp
  show ?thesis
    using cache_get_ttl [OF m d, where now = 1001 and duration = 1000]
          cache_get_ttl [OF m d, where now = 999 and duration = 1000]
    by (simp add: cache_size_def)
qed

text \<open>
  C5 as stated fails at the boundary: with \<open>cacheDuration = 1000\<close> and an entry written at
  time 0, \<open>now = 1000\<close> satisfies \<open>now \<ge> timestamp + cacheDuration\<close>, yet \<^verbatim>\<open>get\<close> still
  returns the entry and removes nothing.
\<close>

theorem cache_get_boundary_counterexample:
  "(1000 :: int) \<ge> timestamp \<lparr>entry_data = [john], timestamp = 0\<rparr> + 1000
   \<and> fst (cache_get 1000 1000 ''jo'' [(''jo'', \<lparr>entry_data = [john], timestamp = 0\<rparr>)])
        = Some [john]
   \<and> cache_size (snd (cache_get 1000 1000 ''jo'' [(''jo'', \<lparr>entry_data = [john], timestamp = 0\<rparr>)]))
        = 1"
  by (simp add: cache_get_def cache_size_def)

lemma length_update_le: "length (AList.update k v al) \<le> Suc (length al)"
  by (induction al) auto

lemma cache_set_keys_nonempty:
  assumes "[] \<notin> fst ` set c" and "q \<noteq> []"
  shows "[] \<notin> fst ` set (cache_set maxSize now q d c)"
proof -
  have sub: "fst ` set (AList.delete k c) \<subseteq> fst ` set c" for k
    by (auto simp: AList.delete_eq)
  have "fst ` set (cache_set maxSize now q d c) \<subseteq> {q} \<union> fst ` set c"
    using sub by (auto simp: cache_set_def AList.dom_update Let_def split: list.splits)
  then show ?thesis using assms by auto
qed

text \<open>
  As long as no key is the empty string, \<^verbatim>\<open>set\<close> keeps the size within
  \<^verbatim>\<open>maxSize\<close>: at capacity it deletes the first key before it inserts.
\<close>

lemma cache_set_size_bound:
  assumes "1 \<le> maxSize" and "[] \<notin> fst ` set c" and "int (length c) \<le> maxSize"
  shows "int (cache_size (cache_set maxSize now q d c)) \<le> maxSize"
proof (cases "int (length c) \<ge> maxSize")
  case True
  then obtain k v rest where c: "c = (k, v) # rest"
    using assms(1) by (cases c) auto
  have k: "truthy k" using assms(2) c by (auto simp: truthy_def)
  have "length (AList.delete k c) \<le> length rest"
    using c by (simp add: AList.delete_eq)
  moreover have "length (AList.update q \<lparr>entry_data = d, timestamp = now\<rparr> (AList.delete k c))
                 \<le> Suc (length (AList.delete k c))"
    by (rule length_update_le)
  ultimately have "length (AList.update q \<lparr>entry_data = d, timestamp = now\<rparr> (AList.delete k c))
                   \<le> length c"
    using c by simp
  moreover have "cache_set maxSize now q d c =
                 AList.update q \<lparr>entry_data = d, timestamp = now\<rparr> (AList.delete k c)"
    using True k c by (simp add: cache_set_def)
  ultimately show ?thesis using assms(3) by (simp add: cache_size_def)
next
  case False
  have "length (AList.update q \<lparr>entry_data = d, timestamp = now\<rparr> c) \<le> Suc (length c)"
    by (rule length_update_le)
  moreover have "cache_set maxSize now q d c = AList.update q \<lparr>entry_data = d, timestamp = now\<rparr> c"
    using False by (simp add: cache_set_def)
  ultimately show ?thesis using False by (simp add: cache_size_def)
qed

text \<open>
  C6. The size of the cache should never exceed \<^verbatim>\<open>maxCacheSize\<close>. With
  \<^verbatim>\<open>maxCacheSize = 1\<close> and the empty string as the first key, \<^verbatim>\<open>set\<close> at capacity
  evicts nothing, because \<^verbatim>\<open>if (firstKey)\<close> is false for the empty string, and the size
  becomes 2. The component reaches this with \<^verbatim>\<open>minQueryLength = 0\<close> in manual mode:
  Enter on the empty input caches the answer under the empty key, and the next
  submitted query is added beside it.
\<close>

theorem cache_set_empty_key_overflow:
  "cache_size (cache_set 1 10 [] [john] []) = 1
   \<and> cache_size (cache_set 1 20 ''john'' [john] (cache_set 1 10 [] [john] [])) = 2
   \<and> maxCacheSize openConfig = 1
   \<and> map fst (cache submittedEmpty) = [[]]
   \<and> map fst (cache submittedJohn) = [[], ''john'']
   \<and> cache_size (cache submittedJohn) = 2"
  by code_simp

subsection \<open>Strategies\<close>

text \<open>
  C4. The Conservative strategy answers a query of length at most 3 from the local search
  alone, with source \<open>local\<close>, and returns without suspending in the remote search; a
  longer query with an exact cache hit is answered with the cached data and source
  \<open>cache\<close>, again without invoking the remote search. Neither path changes the cache or
  the rate limiter.
\<close>

theorem conservative_short_or_cached_never_remote:
  "(length q \<le> 3 \<longrightarrow>
      conservative_start cfg now q localSearch c rl =
        (Done \<lparr>data = localSearch q, source = Local,
               result_error = (if localSearch q = [] then Some ''Type more characters for API search''
                               else None)\<rparr>, c, rl)
      \<and> \<not> invokesRemote (fst (conservative_start cfg now q localSearch c rl)))
   \<and> (length q > 3 \<and> fst (cache_get (cacheDuration cfg) now q c) = Some cached \<longrightarrow>
      conservative_start cfg now q localSearch c rl =
        (Done \<lparr>data = cached, source = Cache, result_error = None\<rparr>, c, rl)
      \<and> \<not> invokesRemote (fst (conservative_start cfg now q localSearch c rl)))"
  by (auto simp: conservative_start_def Let_def invokesRemote_def cache_get_def
           split: option.splits if_splits prod.splits)

theorem conservative_short_or_cached_never_remote_witness:
  "length ''jo'' \<le> (3::nat)
   \<and> fst (conservative_start defaultConfig 10 ''jo''
             (performLocalSearch defaultConfig [(''john'', [john])]) [] [])
       = Done \<lparr>data = [john], source = Local, result_error = None\<rparr>
   \<and> length ''john'' > (3::nat)
   \<and> fst (cache_get (cacheDuration defaultConfig) 10 ''john'' (cache (answered defaultConfig Conservative ''john'')))
       = Some [john]
   \<and> fst (conservative_start defaultConfig 10 ''john''
             (performLocalSearch defaultConfig []) (cache (answered defaultConfig Conservative ''john'')) [5])
       = Done \<lparr>data = [john], source = Cache, result_error = None\<rparr>"
proof -
  have short: "length ''jo'' \<le> (3::nat)" by simp
  have long: "length ''john'' > (3::nat)" by simp
  have hit: "fst (cache_get (cacheDuration defaultConfig) 10 ''john''
                    (cache (answered defaultConfig Conservative ''john''))) = Some [john]"
    by code_simp
  have loc: "performLocalSearch defaultConfig [(''john'', [john])] ''jo'' = [john]"
    by code_simp
  show ?thesis
    using conservative_short_or_cached_never_remote
            [where q = "''jo''" and cfg = defaultConfig and now = 10
               and localSearch = "performLocalSearch defaultConfig [(''john'', [john])]"
               and c = "[]" and rl = "[]"]
          conservative_short_or_cached_never_remote
            [where q = "''john''" and cfg = defaultConfig and now = 10
               and localSearch = "performLocalSearch defaultConfig []"
               and c = "cache (answered defaultConfig Conservative ''john'')" and rl = "[5]"
               and cached = "[john]"]
          short long hit loc
    by simp
qed

lemma balanced_limited_local:
  assumes "fst (cache_get (cacheDuration cfg) now q c) = None"
      and "fuzzyMatch (cacheDuration cfg) now q (snd (cache_get (cacheDuration cfg) now q c)) = None"
      and "fst (isLimited (rateLimit cfg) (rateLimitWindow cfg) now rl)"
      and "localSearch q \<noteq> []"
  shows "balanced_start cfg now q localSearch c rl =
           (Done \<lparr>data = localSearch q, source = Local,
                  result_error = Some ''Showing local results (API unavailable)''\<rparr>,
            snd (cache_get (cacheDuration cfg) now q c),
            snd (isLimited (rateLimit cfg) (rateLimitWindow cfg) now rl))"
proof -
  obtain c' where g: "cache_get (cacheDuration cfg) now q c = (None, c')"
    using assms(1) by (cases "cache_get (cacheDuration cfg) now q c") auto
  obtain rl' where l: "isLimited (rateLimit cfg) (rateLimitWindow cfg) now rl = (True, rl')"
    using assms(3) by (cases "isLimited (rateLimit cfg) (rateLimitWindow cfg) now rl") auto
  have f: "fuzzyMatch (cacheDuration cfg) now q c' = None"
    using assms(2) g by simp
  show ?thesis
    using assms(4)
    by (simp add: balanced_start_def g f l tryApiSearch_start_def balanced_fallback_def
                  truthyError_def truthy_def Let_def)
qed

text \<open>
  C9. In Balanced mode, when the exact and the fuzzy cache lookup both miss, the rate
  limiter reports limited and the local search finds something, \<^verbatim>\<open>execute\<close> returns the
  local data with source \<open>local\<close> and the degraded-mode message: \<^verbatim>\<open>performSearch\<close> never
  sees the \<open>rate_limited\<close> tag, shows the local data and that message, and counts one more
  local search (it would count nothing for \<open>rate_limited\<close>).
\<close>

theorem balanced_masks_rate_limiting:
  assumes "q = trim searchQuery"
      and "q \<noteq> []" and "minQueryLength cfg \<le> length q"
      and "currentStrategyRef s = Balanced"
      and "localSearch = performLocalSearch cfg (recentSearchesRef s)"
      and "fst (cache_get (cacheDuration cfg) now q (cache s)) = None"
      and "fuzzyMatch (cacheDuration cfg) now q
             (snd (cache_get (cacheDuration cfg) now q (cache s))) = None"
      and "fst (isLimited (rateLimit cfg) (rateLimitWindow cfg) now (rateLimiter s))"
      and "localSearch q \<noteq> []"
  shows "fst (balanced_start cfg now q localSearch (cache s) (rateLimiter s)) =
           Done \<lparr>data = localSearch q, source = Local,
                 result_error = Some ''Showing local results (API unavailable)''\<rparr>
       \<and> searchStats (performSearch cfg now searchQuery Balanced s) =
           (searchStats s)\<lparr>localSearches := localSearches (searchStats s) + 1\<rparr>
       \<and> results (apiResult (performSearch cfg now searchQuery Balanced s)) = localSearch q
       \<and> error (apiResult (performSearch cfg now searchQuery Balanced s)) =
           Some ''Showing local results (API unavailable)''"
proof -
  have b: "balanced_start cfg now q localSearch (cache s) (rateLimiter s) =
           (Done \<lparr>data = localSearch q, source = Local,
                  result_error = Some ''Showing local results (API unavailable)''\<rparr>,
            snd (cache_get (cacheDuration cfg) now q (cache s)),
            snd (isLimited (rateLimit cfg) (rateLimitWindow cfg) now (rateLimiter s)))"
    using assms(6-9) by (rule balanced_limited_local)
  have t: "trim searchQuery = q" using assms(1) by simp
  have ps: "performSearch cfg now searchQuery Balanced s =
     applyResult q Balanced \<lparr>data = localSearch q, source = Local,
                  result_error = Some ''Showing local results (API unavailable)''\<rparr>
       (s\<lparr>apiResult := (apiResult s)\<lparr>error := None, isLoading := True\<rparr>,
          cache := snd (cache_get (cacheDuration cfg) now q (cache s)),
          rateLimiter := snd (isLimited (rateLimit cfg) (rateLimitWindow cfg) now (rateLimiter s))\<rparr>)"
    using assms(2,3) b assms(5)
    by (simp add: performSearch_def t truthy_def Let_def)
  show ?thesis
    unfolding ps using assms(4) b
    by (simp add: applyResult_def finishLoading_def truthyError_def truthy_def)
qed

theorem balanced_masks_rate_limiting_witness:
  "searchStats (answered tightConfig Balanced ''john'') = \<lparr>apiCalls = 1, cacheHits = 0, localSearches = 0\<rparr>
   \<and> searchStats (performSearch tightConfig 10 '' ohn@e '' Balanced (answered tightConfig Balanced ''john''))
       = \<lparr>apiCalls = 1, cacheHits = 0, localSearches = 1\<rparr>
   \<and> results (apiResult (performSearch tightConfig 10 '' ohn@e '' Balanced (answered tightConfig Balanced ''john'')))
       = [john]
   \<and> error (apiResult (performSearch tightConfig 10 '' ohn@e '' Balanced (answered tightConfig Balanced ''john'')))
       = Some ''Showing local results (API unavailable)''"
proof -
  let ?s = "answered tightConfig Balanced ''john''"
  let ?ls = "performLocalSearch tightConfig (recentSearchesRef ?s)"
  have h1: "''ohn@e'' = trim '' ohn@e ''" by code_simp
  have h2: "''ohn@e'' \<noteq> []" by simp
  have h3: "minQueryLength tightConfig \<le> length ''ohn@e''" by code_simp
  have h4: "currentStrategyRef ?s = Balanced" by code_simp
  have h6: "fst (cache_get (cacheDuration tightConfig) 10 ''ohn@e'' (cache ?s)) = None"
    by code_simp
  have h7: "fuzzyMatch (cacheDuration tightConfig) 10 ''ohn@e''
              (snd (cache_get (cacheDuration tightConfig) 10 ''ohn@e'' (cache ?s))) = None"
    by code_simp
  have h8: "fst (isLimited (rateLimit tightConfig) (rateLimitWindow tightConfig) 10 (rateLimiter ?s))"
    by code_simp
  have ls: "?ls ''ohn@e'' = [john]" by code_simp
  have h9: "?ls ''ohn@e'' \<noteq> []" by (simp add: ls)
  have st: "searchStats ?s = \<lparr>apiCalls = 1, cacheHits = 0, localSearches = 0\<rparr>" by code_simp
  show ?thesis
    using balanced_masks_rate_limiting [OF h1 h2 h3 h4 refl h6 h7 h8 h9] ls st
    by simp
qed

subsection \<open>Orchestrator\<close>

lemma rateLimiter_applyResult: "rateLimiter (applyResult q m r s) = rateLimiter s"
  by (simp add: applyResult_def finishLoading_def)

lemma rateLimiter_performApiSearch_start:
  "rateLimiter (performApiSearch_start w q s) = rateLimiter s"
  by (simp add: performApiSearch_start_def abortCurrent_def Let_def split: option.splits)

lemma execute_resume_rejected:
  "execute_resume k cfg now q localSearch (Inl e) c rl = (r, c', rl') \<Longrightarrow> c' = c \<and> rl' = rl"
  by (cases k) (auto simp: tryApiSearch_resume_def balanced_resume_def)

lemma execute_resume_resolved:
  "execute_resume k cfg now q localSearch (Inr d) c rl = (r, c', rl') \<Longrightarrow>
   c' = cache_set (maxCacheSize cfg) now q d c \<and> rl' = record_request now rl"
  by (cases k) (auto simp: tryApiSearch_resume_def balanced_resume_def)

lemma settledValue_aborted: "aborted p \<Longrightarrow> settledValue cfg p outcome = Inl abortError"
  by (simp add: settledValue_def performApiSearch_finish_def)

lemma rateLimiter_fetchSettles_rejected:
  assumes "find (\<lambda>p. fetch_id p = i) (pending s) = Some p"
      and "settledValue cfg p outcome = Inl e"
  shows "rateLimiter (fetchSettles cfg now i outcome s) = rateLimiter s"
proof (cases "waiter p")
  case (SearchWaiter k trimmedQuery currentMode)
  then show ?thesis
    using assms
    by (auto simp: fetchSettles_def Let_def rateLimiter_applyResult
             split: prod.splits dest: execute_resume_rejected)
next
  case (SubmitWaiter q)
  then show ?thesis
    using assms by (simp add: fetchSettles_def Let_def submitSettled_def finishLoading_def)
qed

lemma rateLimiter_fetchSettles_resolved:
  assumes "find (\<lambda>p. fetch_id p = i) (pending s) = Some p"
      and "settledValue cfg p outcome = Inr d"
  shows "rateLimiter (fetchSettles cfg now i outcome s) = record_request now (rateLimiter s)"
proof (cases "waiter p")
  case (SearchWaiter k trimmedQuery currentMode)
  then show ?thesis
    using assms
    by (auto simp: fetchSettles_def Let_def rateLimiter_applyResult
             split: prod.splits dest: execute_resume_resolved)
next
  case (SubmitWaiter q)
  then show ?thesis
    using assms by (simp add: fetchSettles_def Let_def submitSettled_def finishLoading_def)
qed

lemma cleanup_idem: "cleanup w now (cleanup w now rl) = cleanup w now rl"
  by (simp add: cleanup_filter)

lemma tryApiSearch_start_purges:
  "tryApiSearch_start k cfg now q rl = (step, rl') \<Longrightarrow> rl' = cleanup (rateLimitWindow cfg) now rl"
  by (auto simp: tryApiSearch_start_def isLimited_def Let_def split: if_splits)

text \<open>Dispatching a search may purge old timestamps but records none.\<close>

lemma execute_start_purges:
  assumes "execute_start m cfg now q localSearch c rl = (step, c', rl')"
  shows "rl' = rl \<or> rl' = cleanup (rateLimitWindow cfg) now rl"
proof (cases m)
  case Instant
  then show ?thesis
    using assms by (auto simp: instant_start_def split: prod.splits dest: tryApiSearch_start_purges)
next
  case Balanced
  then show ?thesis
    using assms
    by (auto simp: balanced_start_def
             split: prod.splits option.splits strategy_step.splits
             dest: tryApiSearch_start_purges)
next
  case Conservative
  then show ?thesis
    using assms
    by (auto simp: conservative_start_def Let_def isLimited_def cleanup_idem
             split: prod.splits option.splits if_splits
             dest!: tryApiSearch_start_purges)
next
  case Manual
  then show ?thesis
    using assms by (auto simp: manual_start_def Let_def split: prod.splits option.splits)
qed

lemma performSearch_records_nothing:
  "rateLimiter (performSearch cfg now searchQuery currentMode s) = rateLimiter s
   \<or> rateLimiter (performSearch cfg now searchQuery currentMode s)
        = cleanup (rateLimitWindow cfg) now (rateLimiter s)"
proof (cases "\<not> truthy (trim searchQuery) \<or> length (trim searchQuery) < minQueryLength cfg")
  case True
  then show ?thesis by (auto simp: performSearch_def Let_def)
next
  case False
  let ?s1 = "s\<lparr>apiResult := (apiResult s)\<lparr>error := None, isLoading := True\<rparr>\<rparr>"
  obtain step c' rl' where ex:
    "execute_start currentMode cfg now (trim searchQuery)
       (performLocalSearch cfg (recentSearchesRef ?s1)) (cache ?s1) (rateLimiter ?s1) = (step, c', rl')"
    by (metis prod_cases3)
  have rl: "rl' = rateLimiter s \<or> rl' = cleanup (rateLimitWindow cfg) now (rateLimiter s)"
    using execute_start_purges [OF ex] by simp
  have "rateLimiter (performSearch cfg now searchQuery currentMode s) = rl'"
    using False ex
    by (cases step)
       (simp_all add: performSearch_def Let_def rateLimiter_applyResult
                      rateLimiter_performApiSearch_start)
  then show ?thesis using rl by auto
qed

lemma handleKeyDown_records_nothing: "rateLimiter (handleKeyDown cfg k s) = rateLimiter s"
  by (cases k)
     (simp_all add: handleKeyDown_def handleSelect_def rateLimiter_performApiSearch_start
               split: list.splits)

text \<open>
  C10. \<^verbatim>\<open>rateLimiter.record()\<close> runs only after the remote search promise has resolved.
  When the promise of a pending fetch rejects (transport failure, a response that is not
  ok, an abort), in a strategy or in the manual submit path, the settling leaves the
  timestamp sequence of the rate limiter as it was, and with it every later answer of
  \<^verbatim>\<open>remaining()\<close> and \<^verbatim>\<open>isLimited()\<close>; when it resolves, the settling appends the time of
  the resolution. Dispatching a search or pressing a key records nothing: the dispatch
  at most purges timestamps that have left the window.
\<close>

theorem rejected_remote_call_keeps_rate_budget:
  assumes "find (\<lambda>p. fetch_id p = i) (pending s) = Some p"
  shows "(settledValue cfg p outcome = Inl e \<longrightarrow>
            rateLimiter (fetchSettles cfg now i outcome s) = rateLimiter s
          \<and> remaining lim w t (rateLimiter (fetchSettles cfg now i outcome s))
              = remaining lim w t (rateLimiter s)
          \<and> isLimited lim w t (rateLimiter (fetchSettles cfg now i outcome s))
              = isLimited lim w t (rateLimiter s))
       \<and> (settledValue cfg p outcome = Inr d \<longrightarrow>
            rateLimiter (fetchSettles cfg now i outcome s) = record_request now (rateLimiter s))
       \<and> rateLimiter (handleKeyDown cfg k s) = rateLimiter s
       \<and> (rateLimiter (performSearch cfg now searchQuery currentMode s) = rateLimiter s
          \<or> rateLimiter (performSearch cfg now searchQuery currentMode s)
               = cleanup (rateLimitWindow cfg) now (rateLimiter s))"
  using rateLimiter_fetchSettles_rejected [OF assms]
        rateLimiter_fetchSettles_resolved [OF assms]
        handleKeyDown_records_nothing performSearch_records_nothing
  by simp


theorem rejected_remote_call_keeps_rate_budget_witness:
  "rateLimiter (performSearch defaultConfig 10 ''mary'' Instant (answered defaultConfig Instant ''john''))
     = [5]
   \<and> rateLimiter
        (fetchSettles defaultConfig 20 1 (FetchRejected failedToFetch)
           (performSearch defaultConfig 10 ''mary'' Instant (answered defaultConfig Instant ''john'')))
     = [5]
   \<and> rateLimiter
        (fetchSettles defaultConfig 20 1 (FetchResponse True 200 [john])
           (performSearch defaultConfig 10 ''mary'' Instant (answered defaultConfig Instant ''john'')))
     = [5, 20]"
proof -
  let ?s = "performSearch defaultConfig 10 ''mary'' Instant (answered defaultConfig Instant ''john'')"
  let ?p = "\<lparr>fetch_id = 1, fetch_query = ''mary'',
             waiter = SearchWaiter InstantTry ''mary'' Instant, aborted = False\<rparr>"
  have f: "find (\<lambda>p. fetch_id p = 1) (pending ?s) = Some ?p" by code_simp
  have rej: "settledValue defaultConfig ?p (FetchRejected failedToFetch) = Inl failedToFetch"
    by (simp add: settledValue_def performApiSearch_finish_def)
  have res: "settledValue defaultConfig ?p (FetchResponse True 200 [john]) = Inr []"
    by code_simp
  have rl: "rateLimiter ?s = [5]" by code_simp
  show ?thesis
    using rejected_remote_call_keeps_rate_budget
            [OF f, where cfg = defaultConfig and outcome = "FetchRejected failedToFetch"
               and e = failedToFetch and now = 20]
          rejected_remote_call_keeps_rate_budget
            [OF f, where cfg = defaultConfig and outcome = "FetchResponse True 200 [john]"
               and d = "[]" and now = 20]
          rej res rl
    by (simp add: record_request_def)
qed

lemma map_of_rememberSearch:
  assumes "length h \<le> 20"
  shows "map_of (rememberSearch q d h) q = Some d"
proof -
  let ?h' = "AList.update q d h"
  have upd: "map_of ?h' q = Some d" by (simp add: AList.update_conv')
  show ?thesis
  proof (cases "length ?h' > 20")
    case False
    then show ?thesis using upd by (simp add: rememberSearch_def)
  next
    case True
    have keys: "map fst ?h' = (if q \<in> set (map fst h) then map fst h else map fst h @ [q])"
      by (rule AList.update_keys)
    have "length (map fst ?h') > 20" using True by simp
    then have new: "q \<notin> set (map fst h)" and k': "map fst ?h' = map fst h @ [q]"
      using assms keys by (auto split: if_splits)
    have "length (map fst ?h') = Suc (length h)" unfolding k' by simp
    then have "19 < length h" using True by simp
    then have "h \<noteq> []" by auto
    then obtain p rest where h: "h = p # rest" by (cases h) auto
    have ne: "fst p \<noteq> q" using new h by auto
    have "map fst ?h' = fst p # (map fst rest @ [q])" using k' h by simp
    then have "rememberSearch q d h =
                 (if truthy (fst p) then AList.delete (fst p) ?h' else ?h')"
      using True by (simp add: rememberSearch_def Let_def del: AList.update.simps)
    then show ?thesis using upd ne by (simp del: AList.update.simps)
  qed
qed

text \<open>
  C3, as amended. A result that \<^verbatim>\<open>performSearch\<close> applies (the strategy it was
  dispatched under is still the current one; the history holds at most its 20 entries)
  is written to the local history under the trimmed query if and only if its data is
  not empty: with data, the history then maps the query to that data, whatever the
  source tag; without data, the history stays as it was.
\<close>

theorem history_written_iff_data_nonempty:
  assumes "length (recentSearchesRef s) \<le> 20" and "currentStrategyRef s = currentMode"
  shows "(data result \<noteq> [] \<longrightarrow>
            map_of (recentSearchesRef (applyResult q currentMode result s)) q = Some (data result))
       \<and> (data result = [] \<longrightarrow>
            recentSearchesRef (applyResult q currentMode result s) = recentSearchesRef s)"
  using assms map_of_rememberSearch [OF assms(1)]
  by (simp add: applyResult_def finishLoading_def)

theorem history_written_iff_data_nonempty_witness:
  "map_of (recentSearchesRef
             (applyResult ''jo'' Instant \<lparr>data = [john], source = Api, result_error = None\<rparr>
                (initialState Instant))) ''jo'' = Some [john]
   \<and> recentSearchesRef
        (applyResult ''zz'' Instant \<lparr>data = [], source = Api, result_error = None\<rparr>
           (answered defaultConfig Instant ''john''))
      = [(''john'', [john])]"
proof -
  have l0: "length (recentSearchesRef (initialState Instant)) \<le> 20" by code_simp
  have m0: "currentStrategyRef (initialState Instant) = Instant" by code_simp
  have l1: "length (recentSearchesRef (answered defaultConfig Instant ''john'')) \<le> 20"
    by code_simp
  have m1: "currentStrategyRef (answered defaultConfig Instant ''john'') = Instant" by code_simp
  have h1: "recentSearchesRef (answered defaultConfig Instant ''john'') = [(''john'', [john])]"
    by code_simp
  show ?thesis
    using history_written_iff_data_nonempty
            [OF l0 m0, where result = "\<lparr>data = [john], source = Api, result_error = None\<rparr>"
               and q = "''jo''"]
          history_written_iff_data_nonempty
            [OF l1 m1, where result = "\<lparr>data = [], source = Api, result_error = None\<rparr>"
               and q = "''zz''"]
          h1
    by simp
qed

text \<open>
  C3 as stated fails for a result tagged \<open>rate_limited\<close> that carries data. Conservative
  mode, one remote call allowed per window: after the search for \<open>john\<close> was answered
  by the API at time 5, a search for \<open>ohn@e\<close> at time 10 misses the cache, finds the
  rate limiter exhausted and gets John from the local search, tagged \<open>rate_limited\<close>;
  \<^verbatim>\<open>performSearch\<close> writes that result into the history, which had no entry for
  \<open>ohn@e\<close> before.
\<close>

theorem rate_limited_result_written_counterexample:
  "fst (conservative_start tightConfig 10 ''ohn@e''
          (performLocalSearch tightConfig (recentSearchesRef (answered tightConfig Conservative ''john'')))
          (cache (answered tightConfig Conservative ''john''))
          (rateLimiter (answered tightConfig Conservative ''john'')))
     = Done \<lparr>data = [john], source = RateLimited,
             result_error = Some ''Rate limited. Showing local results.''\<rparr>
   \<and> map_of (recentSearchesRef (answered tightConfig Conservative ''john'')) ''ohn@e'' = None
   \<and> map_of (recentSearchesRef
               (performSearch tightConfig 10 ''ohn@e'' Conservative
                  (answered tightConfig Conservative ''john''))) ''ohn@e'' = Some [john]"
  by code_simp

text \<open>
  C8, as amended. For a query whose trimmed length is below \<^verbatim>\<open>minQueryLength\<close>,
  \<^verbatim>\<open>performSearch\<close> invokes no strategy, clears the result set at once and sets the
  error to null, whether the trimmed query is empty or only too short: nothing else of
  the state changes and no message is surfaced. \<^verbatim>\<open>handleInputChange\<close> does the same
  on the keystroke when the trimmed input is empty or the mode is manual; in the other
  modes the debounced \<^verbatim>\<open>performSearch\<close> does it when its timer fires.
\<close>

theorem short_query_never_dispatched:
  assumes "length (trim searchQuery) < minQueryLength cfg"
  shows "performSearch cfg now searchQuery currentMode s
           = s\<lparr>apiResult := (apiResult s)\<lparr>error := None, results := []\<rparr>\<rparr>
       \<and> (trim searchQuery = [] \<longrightarrow>
            handleInputChange cfg now searchQuery s
              = s\<lparr>query := searchQuery,
                  apiResult := (apiResult s)\<lparr>error := None, results := [], isDropdownOpen := False\<rparr>\<rparr>)
       \<and> (trim searchQuery \<noteq> [] \<and> searchMode s = Manual \<longrightarrow>
            handleInputChange cfg now searchQuery s
              = s\<lparr>query := searchQuery,
                  apiResult := (apiResult s)\<lparr>error := None, results := []\<rparr>\<rparr>)
       \<and> (trim searchQuery \<noteq> [] \<and> searchMode s \<noteq> Manual \<longrightarrow>
            debounceFires cfg later (handleInputChange cfg now searchQuery s)
              = s\<lparr>query := searchQuery,
                  apiResult := (apiResult s)\<lparr>error := None, isLoading := True, results := []\<rparr>,
                  debounceTimer := None\<rparr>)"
proof (intro conjI impI)
  show "performSearch cfg now searchQuery currentMode s
          = s\<lparr>apiResult := (apiResult s)\<lparr>error := None, results := []\<rparr>\<rparr>"
    using assms by (simp add: performSearch_def Let_def)
next
  assume "trim searchQuery = []"
  then show "handleInputChange cfg now searchQuery s
              = s\<lparr>query := searchQuery,
                  apiResult := (apiResult s)\<lparr>error := None, results := [], isDropdownOpen := False\<rparr>\<rparr>"
    by (simp add: handleInputChange_def Let_def truthy_def)
next
  assume "trim searchQuery \<noteq> [] \<and> searchMode s = Manual"
  then show "handleInputChange cfg now searchQuery s
              = s\<lparr>query := searchQuery,
                  apiResult := (apiResult s)\<lparr>error := None, results := []\<rparr>\<rparr>"
    using assms by (simp add: handleInputChange_def Let_def truthy_def)
next
  assume a: "trim searchQuery \<noteq> [] \<and> searchMode s \<noteq> Manual"
  then have h: "handleInputChange cfg now searchQuery s
              = s\<lparr>query := searchQuery,
                  apiResult := (apiResult s)\<lparr>error := None, isLoading := True\<rparr>,
                  debounceTimer := Some (searchQuery, searchMode s)\<rparr>"
    by (simp add: handleInputChange_def Let_def truthy_def)
  show "debounceFires cfg later (handleInputChange cfg now searchQuery s)
              = s\<lparr>query := searchQuery,
                  apiResult := (apiResult s)\<lparr>error := None, isLoading := True, results := []\<rparr>,
                  debounceTimer := None\<rparr>"
    unfolding h using assms by (simp add: debounceFires_def performSearch_def Let_def)
qed

theorem short_query_never_dispatched_witness:
  "results (apiResult (answered defaultConfig Balanced ''john'')) = [john]
   \<and> performSearch defaultConfig 10 ''a '' Balanced (answered defaultConfig Balanced ''john'')
       = (answered defaultConfig Balanced ''john'')
           \<lparr>apiResult := (apiResult (answered defaultConfig Balanced ''john''))
              \<lparr>error := None, results := []\<rparr>\<rparr>
   \<and> results (apiResult
        (debounceFires defaultConfig 310
           (handleInputChange defaultConfig 10 ''a '' (answered defaultConfig Balanced ''john'')))) = []
   \<and> handleInputChange defaultConfig 10 ''  '' (answered defaultConfig Balanced ''john'')
       = (answered defaultConfig Balanced ''john'')
           \<lparr>query := ''  '',
            apiResult := (apiResult (answered defaultConfig Balanced ''john''))
              \<lparr>error := None, results := [], isDropdownOpen := False\<rparr>\<rparr>
   \<and> results (apiResult (handleInputChange defaultConfig 10 ''a '' (initialState Manual))) = []"
proof -
  let ?s = "answered defaultConfig Balanced ''john''"
  have short: "length (trim ''a '') < minQueryLength defaultConfig" by code_simp
  have blank: "length (trim ''  '') < minQueryLength defaultConfig" by code_simp
  have ne: "trim ''a '' \<noteq> []" by code_simp
  have e: "trim ''  '' = []" by code_simp
  have m: "searchMode ?s \<noteq> Manual" by code_simp
  have m': "searchMode (initialState Manual) = Manual" by code_simp
  have r: "results (apiResult ?s) = [john]" by code_simp
  show ?thesis
    using short_query_never_dispatched
            [OF short, where s = ?s and now = 10 and currentMode = Balanced and later = 310]
          short_query_never_dispatched [OF blank, where s = ?s and now = 10]
          short_query_never_dispatched [OF short, where s = "initialState Manual" and now = 10]
          ne e m m' r
    by simp
qed

text \<open>
  C8 as stated fails in its last part: for the query \<open>a\<close>, not empty and shorter than
  the minimum of 2, no message reaches the caller, neither from \<^verbatim>\<open>performSearch\<close>
  nor from a keystroke in a debounced mode or in manual mode.
\<close>

theorem too_short_query_no_message_counterexample:
  "trim ''a'' \<noteq> [] \<and> length (trim ''a'') < minQueryLength defaultConfig
   \<and> error (apiResult (performSearch defaultConfig 0 ''a'' Balanced (initialState Balanced))) = None
   \<and> error (apiResult
        (debounceFires defaultConfig 300
           (handleInputChange defaultConfig 0 ''a'' (initialState Balanced)))) = None
   \<and> error (apiResult (handleInputChange defaultConfig 0 ''a'' (initialState Manual))) = None"
  by code_simp

lemma execute_resume_rejected_source:
  assumes "execute_resume k cfg now q localSearch (Inl e) c rl = (r, c', rl')"
  shows "source r = Api \<or> source r = Local"
  using assms
  by (cases k)
     (auto simp: tryApiSearch_resume_def balanced_resume_def balanced_fallback_def Let_def
           split: if_splits)

lemma updateStats_counts: "src = Api \<or> src = Local \<Longrightarrow> updateStats src st \<noteq> st"
proof -
  assume a: "src = Api \<or> src = Local"
  have "apiCalls (updateStats src st) + localSearches (updateStats src st)
          = Suc (apiCalls st + localSearches st)"
    using a by auto
  then show ?thesis by (metis n_not_Suc_n)
qed

text \<open>
  Whenever an aborted fetch belongs to a search whose strategy is still current, its
  settling is applied like an answer: a counter of the statistics goes up and the
  dropdown is opened.
\<close>

lemma aborted_search_is_applied:
  assumes "find (\<lambda>p. fetch_id p = i) (pending s) = Some p"
      and "aborted p"
      and "waiter p = SearchWaiter k q m"
      and "currentStrategyRef s = m"
  shows "searchStats (fetchSettles cfg now i outcome s) \<noteq> searchStats s
       \<and> isDropdownOpen (apiResult (fetchSettles cfg now i outcome s))"
proof -
  let ?s1 = "s\<lparr>pending := filter (\<lambda>p'. fetch_id p' \<noteq> i) (pending s)\<rparr>"
  have sv: "settledValue cfg p outcome = Inl abortError"
    using assms(2) by (rule settledValue_aborted)
  obtain r c' rl' where ex:
    "execute_resume k cfg now q (performLocalSearch cfg (recentSearchesRef ?s1))
       (Inl abortError) (cache ?s1) (rateLimiter ?s1) = (r, c', rl')"
    by (metis prod_cases3)
  have src: "source r = Api \<or> source r = Local"
    using ex by (rule execute_resume_rejected_source)
  have fs: "fetchSettles cfg now i outcome s
              = applyResult q m r (?s1\<lparr>cache := c', rateLimiter := rl'\<rparr>)"
    using assms(1,3) sv ex by (simp add: fetchSettles_def Let_def)
  show ?thesis
    unfolding fs using assms(4) updateStats_counts [OF src, of "searchStats s"]
    by (simp add: applyResult_def finishLoading_def)
qed

text \<open>
  C1. A second search issued before the first one's remote promise settles, under the
  same strategy, should make the first one's eventual resolution vanish. Here the
  dispatch of \<open>johnny\<close> aborts the fetch of \<open>john\<close>; the strategy's
  \<^verbatim>\<open>tryApiSearch\<close> catches the abort and returns it as an error result, and
  \<^verbatim>\<open>performSearch\<close>, whose strategy is unchanged, applies it: the abort message becomes
  the visible error, the dropdown opens, the loading flag is cleared and an API call is
  counted, all while the second search is still in flight.
\<close>

theorem superseded_search_still_applied:
  "map aborted (pending twoSearches) = [True, False]
   \<and> apiResult twoSearches
       = \<lparr>isLoading = True, error = None, results = [], isDropdownOpen = False\<rparr>
   \<and> apiResult (fetchSettles defaultConfig 100 0 (FetchResponse True 200 [john]) twoSearches)
       = \<lparr>isLoading = False, error = Some ''signal is aborted without reason'', results = [],
          isDropdownOpen = True\<rparr>
   \<and> searchStats (fetchSettles defaultConfig 100 0 (FetchResponse True 200 [john]) twoSearches)
       = \<lparr>apiCalls = 1, cacheHits = 0, localSearches = 0\<rparr>
   \<and> map fetch_id (pending (fetchSettles defaultConfig 100 0 (FetchResponse True 200 [john]) twoSearches))
       = [1]"
  by code_simp

text \<open>
  When the second search is answered from the cache it issues no remote call, so the
  first fetch is not aborted either, and its late answer replaces the result of the
  second search.
\<close>

lemma late_result_overwrites_cache_hit:
  "map aborted (pending cacheHitWhileWaiting) = [False]
   \<and> query (cacheHitWhileWaiting) = []
   \<and> results (apiResult cacheHitWhileWaiting) = [john]
   \<and> results (apiResult
        (fetchSettles defaultConfig 30 1 (FetchResponse True 200 [john, mary]) cacheHitWhileWaiting))
       = [mary]"
  by code_simp

text \<open>
  C2. An aborted remote request should be swallowed: no result, error or state update
  for that search. After the input was cleared, the aborted fetch of the Instant search
  for \<open>john\<close> still settles into \<^verbatim>\<open>performSearch\<close> as an error result: the abort
  message is shown, the dropdown reopens and an API call is counted. The promise chain
  of \<^verbatim>\<open>handleKeyDown\<close>, which tests \<^verbatim>\<open>error.name !== "AbortError"\<close> on the rejection
  itself, does swallow the abort: after the same clearing nothing changes.
\<close>

theorem aborted_search_surfaces_error:
  "map aborted (pending clearedSearch) = [True]
   \<and> apiResult clearedSearch
       = \<lparr>isLoading = False, error = None, results = [], isDropdownOpen = False\<rparr>
   \<and> apiResult (fetchSettles defaultConfig 50 0 (FetchResponse True 200 [john]) clearedSearch)
       = \<lparr>isLoading = False, error = Some ''signal is aborted without reason'', results = [],
          isDropdownOpen = True\<rparr>
   \<and> searchStats (fetchSettles defaultConfig 50 0 (FetchResponse True 200 [john]) clearedSearch)
       = \<lparr>apiCalls = 1, cacheHits = 0, localSearches = 0\<rparr>
   \<and> map aborted (pending clearedSubmit) = [True]
   \<and> apiResult (fetchSettles defaultConfig 50 0 (FetchResponse True 200 [john]) clearedSubmit)
       = apiResult clearedSubmit
   \<and> searchStats (fetchSettles defaultConfig 50 0 (FetchResponse True 200 [john]) clearedSubmit)
       = searchStats clearedSubmit"
  by code_simp

subsection \<open>Invariants of the reachable states\<close>

text \<open>
  Every reachable state satisfies \<open>stateOk\<close>: wherever the component can get to, the
  keys of its cache are distinct and its history holds at most 20 entries, which is
  what the results above on the cache's time to live and on the write to the history
  assume.
\<close>

lemma distinct_cache_get: "distinct (map fst c) \<Longrightarrow> distinct (map fst (snd (cache_get duration now q c)))"
  by (simp add: cache_get_def AList.distinct_delete split: option.splits)

lemma distinct_cache_set: "distinct (map fst c) \<Longrightarrow> distinct (map fst (cache_set maxSize now q d c))"
  by (simp add: cache_set_def Let_def AList.distinct_update AList.distinct_delete split: list.splits)

lemma rememberSearch_bounded:
  assumes "length h \<le> 20" and "[] \<notin> fst ` set h" and "q \<noteq> []"
  shows "length (rememberSearch q d h) \<le> 20 \<and> [] \<notin> fst ` set (rememberSearch q d h)"
proof -
  let ?h' = "AList.update q d h"
  have keys: "fst ` set ?h' = {q} \<union> fst ` set h" by (rule AList.dom_update)
  have ne: "[] \<notin> fst ` set ?h'" using assms(2,3) keys by auto
  have len: "length ?h' \<le> Suc (length h)" by (rule length_update_le)
  have sub: "fst ` set (AList.delete k ?h') \<subseteq> fst ` set ?h'" for k
    by (auto simp: AList.delete_eq)
  show ?thesis
  proof (cases "length ?h' > 20")
    case False
    then show ?thesis using ne by (simp add: rememberSearch_def)
  next
    case True
    then obtain k v rest where h': "?h' = (k, v) # rest" by (cases ?h') auto
    have k: "truthy k" using ne h' by (auto simp: truthy_def image_iff)
    have r: "rememberSearch q d h = AList.delete k ?h'"
      using True h' k by (simp add: rememberSearch_def Let_def del: AList.update.simps)
    have "length (AList.delete k ?h') \<le> length rest"
      unfolding h' by (simp add: AList.delete_eq)
    moreover have "Suc (length rest) = length ?h'" using h' by simp
    ultimately have "length (AList.delete k ?h') \<le> 20" using len assms(1) by simp
    moreover have "[] \<notin> fst ` set (AList.delete k ?h')" using sub [of k] ne by blast
    ultimately show ?thesis by (simp add: r)
  qed
qed

lemma stateOk_applyResult:
  assumes "stateOk s" and "q \<noteq> []"
  shows "stateOk (applyResult q m r s)"
  using assms rememberSearch_bounded [of "recentSearchesRef s" q "data r"]
  by (simp add: stateOk_def applyResult_def finishLoading_def)

lemma stateOk_abortCurrent: "stateOk s \<Longrightarrow> stateOk (abortCurrent s)"
  by (auto simp: stateOk_def abortCurrent_def list_all_iff split: option.splits)

lemma stateOk_performApiSearch_start:
  "stateOk s \<Longrightarrow> waiterOk w \<Longrightarrow> stateOk (performApiSearch_start w q s)"
  using stateOk_abortCurrent [of s]
  by (simp add: performApiSearch_start_def Let_def stateOk_def)

lemma execute_start_cache:
  assumes "execute_start m cfg now q localSearch c rl = (step, c', rl')"
  shows "c' = c \<or> c' = snd (cache_get (cacheDuration cfg) now q c)"
proof (cases m)
  case Instant
  then show ?thesis using assms by (auto simp: instant_start_def split: prod.splits)
next
  case Balanced
  then show ?thesis
    using assms
    by (auto simp: balanced_start_def split: prod.splits option.splits strategy_step.splits)
next
  case Conservative
  then show ?thesis
    using assms
    by (auto simp: conservative_start_def Let_def split: prod.splits option.splits if_splits)
next
  case Manual
  then show ?thesis
    using assms by (auto simp: manual_start_def Let_def split: prod.splits option.splits)
qed

lemma stateOk_performSearch:
  assumes "stateOk s"
  shows "stateOk (performSearch cfg now searchQuery currentMode s)"
proof (cases "\<not> truthy (trim searchQuery) \<or> length (trim searchQuery) < minQueryLength cfg")
  case True
  then show ?thesis using assms by (auto simp: performSearch_def Let_def stateOk_def)
next
  case False
  then have ne: "trim searchQuery \<noteq> []" by (simp add: truthy_def)
  let ?s1 = "s\<lparr>apiResult := (apiResult s)\<lparr>error := None, isLoading := True\<rparr>\<rparr>"
  obtain step c' rl' where ex:
    "execute_start currentMode cfg now (trim searchQuery)
       (performLocalSearch cfg (recentSearchesRef ?s1)) (cache ?s1) (rateLimiter ?s1) = (step, c', rl')"
    by (metis prod_cases3)
  have "distinct (map fst c')"
    using execute_start_cache [OF ex] assms distinct_cache_get [of "cache s"]
    by (auto simp: stateOk_def)
  then have ok2: "stateOk (?s1\<lparr>cache := c', rateLimiter := rl'\<rparr>)"
    using assms by (simp add: stateOk_def)
  show ?thesis
  proof (cases step)
    case (Done r)
    then have "performSearch cfg now searchQuery currentMode s
                 = applyResult (trim searchQuery) currentMode r (?s1\<lparr>cache := c', rateLimiter := rl'\<rparr>)"
      using False ex by (simp add: performSearch_def Let_def)
    then show ?thesis using stateOk_applyResult [OF ok2 ne] by simp
  next
    case (AwaitApi k q)
    then have "performSearch cfg now searchQuery currentMode s
                 = performApiSearch_start (SearchWaiter k (trim searchQuery) currentMode) q
                     (?s1\<lparr>cache := c', rateLimiter := rl'\<rparr>)"
      using False ex by (simp add: performSearch_def Let_def)
    then show ?thesis
      using stateOk_performApiSearch_start [OF ok2] ne by (simp add: waiterOk_def)
  qed
qed

lemma find_pending_ok:
  "list_all (\<lambda>p. waiterOk (waiter p)) ps \<Longrightarrow> find P ps = Some p \<Longrightarrow> waiterOk (waiter p)"
  by (induction ps) (auto split: if_splits)

lemma execute_resume_cache:
  assumes "execute_resume k cfg now q localSearch settled c rl = (r, c', rl')"
  shows "c' = c \<or> (\<exists>d. c' = cache_set (maxCacheSize cfg) now q d c)"
  using assms
  by (cases k; cases settled) (auto simp: tryApiSearch_resume_def balanced_resume_def)

lemma stateOk_fetchSettles:
  assumes "stateOk s"
  shows "stateOk (fetchSettles cfg now i outcome s)"
proof (cases "find (\<lambda>p. fetch_id p = i) (pending s)")
  case None
  then show ?thesis using assms by (simp add: fetchSettles_def)
next
  case (Some p)
  let ?s1 = "s\<lparr>pending := filter (\<lambda>p'. fetch_id p' \<noteq> i) (pending s)\<rparr>"
  have ok1: "stateOk ?s1" using assms by (auto simp: stateOk_def list_all_iff)
  have wp: "waiterOk (waiter p)"
    using assms Some by (auto simp: stateOk_def intro: find_pending_ok)
  show ?thesis
  proof (cases "waiter p")
    case (SearchWaiter k q m)
    obtain r c' rl' where ex:
      "execute_resume k cfg now q (performLocalSearch cfg (recentSearchesRef ?s1))
         (settledValue cfg p outcome) (cache ?s1) (rateLimiter ?s1) = (r, c', rl')"
      by (metis prod_cases3)
    have "distinct (map fst c')"
      using execute_resume_cache [OF ex] ok1 distinct_cache_set [of "cache s"]
      by (auto simp: stateOk_def)
    then have ok2: "stateOk (?s1\<lparr>cache := c', rateLimiter := rl'\<rparr>)"
      using ok1 by (simp add: stateOk_def)
    have ne: "q \<noteq> []" using wp SearchWaiter by (simp add: waiterOk_def)
    have "fetchSettles cfg now i outcome s
            = applyResult q m r (?s1\<lparr>cache := c', rateLimiter := rl'\<rparr>)"
      using Some SearchWaiter ex by (simp add: fetchSettles_def Let_def)
    then show ?thesis using stateOk_applyResult [OF ok2 ne] by simp
  next
    case (SubmitWaiter q)
    have "stateOk (submitSettled cfg now q (settledValue cfg p outcome) ?s1)"
      using ok1 distinct_cache_set [of "cache s"]
      by (cases "settledValue cfg p outcome")
         (auto simp: submitSettled_def finishLoading_def stateOk_def)
    then show ?thesis using Some SubmitWaiter by (simp add: fetchSettles_def Let_def)
  qed
qed

lemma stateOk_handleInputChange:
  assumes "stateOk s"
  shows "stateOk (handleInputChange cfg now newQuery s)"
proof -
  let ?s1 = "s\<lparr>query := newQuery, apiResult := (apiResult s)\<lparr>error := None\<rparr>\<rparr>"
  have ok1: "stateOk ?s1" using assms by (simp add: stateOk_def)
  show ?thesis
    using assms stateOk_performSearch [OF ok1]
    by (simp add: handleInputChange_def Let_def) (simp add: stateOk_def)
qed

lemma stateOk_debounceFires: "stateOk s \<Longrightarrow> stateOk (debounceFires cfg now s)"
proof -
  assume a: "stateOk s"
  have ok1: "stateOk (s\<lparr>debounceTimer := None\<rparr>)" using a by (simp add: stateOk_def)
  show ?thesis
    using a stateOk_performSearch [OF ok1]
    by (auto simp: debounceFires_def split: option.splits)
qed

lemma stateOk_handleKeyDown: "stateOk s \<Longrightarrow> stateOk (handleKeyDown cfg k s)"
proof -
  assume a: "stateOk s"
  have ok1: "stateOk (s\<lparr>apiResult := (apiResult s)\<lparr>isLoading := False\<rparr>\<rparr>)"
    using a by (simp add: stateOk_def)
  have w: "waiterOk (SubmitWaiter (trim (query s)))" by (simp add: waiterOk_def)
  have sel: "stateOk (handleSelect u s)" for u using a by (simp add: handleSelect_def stateOk_def)
  show ?thesis
    using a stateOk_performApiSearch_start [OF ok1 w] sel
    by (cases k) (auto simp: handleKeyDown_def split: list.splits)
qed

lemma stateOk_clearSearch: "stateOk s \<Longrightarrow> stateOk (clearSearch s)"
proof -
  assume a: "stateOk s"
  have "stateOk (s\<lparr>query := [],
          apiResult := (apiResult s)
            \<lparr>results := [], isLoading := False, error := None, isDropdownOpen := False\<rparr>\<rparr>)"
    using a by (simp add: stateOk_def)
  then show ?thesis unfolding clearSearch_def by (rule stateOk_abortCurrent)
qed

lemma stateOk_handleStrategyChange: "stateOk s \<Longrightarrow> stateOk (handleStrategyChange m s)"
  using stateOk_abortCurrent [of s]
  by (simp add: handleStrategyChange_def Let_def stateOk_def)

lemma reachable_stateOk: "reachable cfg s \<Longrightarrow> stateOk s"
proof (induction rule: reachable.induct)
  case (mounted defaultStrategy)
  show ?case by (simp add: stateOk_def initialState_def)
next
  case (typed s now newQuery)
  then show ?case by (simp add: stateOk_handleInputChange)
next
  case (timer s now)
  then show ?case by (simp add: stateOk_debounceFires)
next
  case (searched s now searchQuery currentMode)
  then show ?case by (simp add: stateOk_performSearch)
next
  case (key s k)
  then show ?case by (simp add: stateOk_handleKeyDown)
next
  case (cleared s)
  then show ?case by (simp add: stateOk_clearSearch)
next
  case (switched s m)
  then show ?case by (simp add: stateOk_handleStrategyChange)
next
  case (settled s now i outcome)
  then show ?case by (simp add: stateOk_fetchSettles)
qed

text \<open>
  The discard that the strategy reference does provide: a result that arrives when
  another strategy has become current changes nothing but the loading flag.
\<close>

lemma stale_strategy_result_dropped:
  "currentStrategyRef s \<noteq> currentMode \<Longrightarrow> applyResult q currentMode r s = finishLoading s"
  by (simp add: applyResult_def)

end
